theory Spec2Isabelle
  imports Main "HOL-Library.Word"
begin

section \<open>JavaScript strings\<close>

text \<open>
  A JavaScript string is a sequence of UTF-16 code units. A literal of the source that is
  ASCII is written with \<open>js\<close>; the CJK literals are written by their code units.
\<close>

type_synonym unit16 = "16 word"
type_synonym jsstring = "unit16 list"

definition js :: "string \<Rightarrow> jsstring" where
  "js s = map of_char s"

definition LF :: unit16 where
  "LF = 0x0A"

text \<open>
  White space of \<open>String.prototype.trim\<close> and of the class \<open>\s\<close>: the WhiteSpace
  and LineTerminator code points of ECMAScript.
\<close>

definition isSpace :: "unit16 \<Rightarrow> bool" where
  "isSpace c \<longleftrightarrow>
     c = 0x09 \<or> c = 0x0A \<or> c = 0x0B \<or> c = 0x0C \<or> c = 0x0D \<or> c = 0x20 \<or>
     c = 0xA0 \<or> c = 0x1680 \<or> (0x2000 \<le> c \<and> c \<le> 0x200A) \<or>
     c = 0x2028 \<or> c = 0x2029 \<or> c = 0x202F \<or> c = 0x205F \<or> c = 0x3000 \<or> c = 0xFEFF"

definition notSpace :: "unit16 \<Rightarrow> bool" where
  "notSpace c \<longleftrightarrow> \<not> isSpace c"

definition trim :: "jsstring \<Rightarrow> jsstring" where
  "trim s = rev (dropWhile isSpace (rev (dropWhile isSpace s)))"

text \<open>\<open>s.split(sep)\<close> for a separator of one code unit: \<open>n\<close> separators give \<open>n + 1\<close> pieces.\<close>

fun split :: "unit16 \<Rightarrow> jsstring \<Rightarrow> jsstring list" where
  "split sep [] = [[]]"
| "split sep (c # cs) =
     (if c = sep then [] # split sep cs
      else (case split sep cs of p # ps \<Rightarrow> (c # p) # ps | [] \<Rightarrow> [[c]]))"

text \<open>\<open>xs.join(sep)\<close> for a separator of one code unit.\<close>

fun join :: "unit16 \<Rightarrow> jsstring list \<Rightarrow> jsstring" where
  "join sep [] = []"
| "join sep [x] = x"
| "join sep (x # y # ys) = x @ sep # join sep (y # ys)"

section \<open>The regular expressions of cleanEmailContent\<close>

text \<open>
  Case-insensitive comparison of a code unit of the input with a character of a pattern.
  The characters of the patterns are ASCII letters, the colon and CJK ideographs; without the
  \<open>u\<close> flag a code unit above 127 never canonicalises to an ASCII one, and no other code unit
  has one of these ideographs as its upper case, so only the two ASCII cases of a letter meet.
\<close>

definition canon :: "unit16 \<Rightarrow> unit16" where
  "canon c = (if 0x61 \<le> c \<and> c \<le> 0x7A then c - 0x20 else c)"

definition eq_ci :: "unit16 \<Rightarrow> unit16 \<Rightarrow> bool" where
  "eq_ci p c \<longleftrightarrow> canon p = canon c"

fun prefix_ci :: "jsstring \<Rightarrow> jsstring \<Rightarrow> bool" where
  "prefix_ci [] s = True"
| "prefix_ci (p # ps) [] = False"
| "prefix_ci (p # ps) (c # cs) = (eq_ci p c \<and> prefix_ci ps cs)"

text \<open>The word characters of \<open>\b\<close> (no \<open>u\<close> flag): \<open>[A-Za-z0-9_]\<close>.\<close>

definition isWord :: "unit16 \<Rightarrow> bool" where
  "isWord c \<longleftrightarrow>
     (0x41 \<le> c \<and> c \<le> 0x5A) \<or> (0x61 \<le> c \<and> c \<le> 0x7A) \<or>
     (0x30 \<le> c \<and> c \<le> 0x39) \<or> c = 0x5F"

text \<open>
  \<open>\b\<close> between the code unit before the position (\<open>None\<close> at the start) and the rest of
  the input (empty at the end): exactly one of the two sides is a word character.
\<close>

definition wordBoundary :: "unit16 option \<Rightarrow> jsstring \<Rightarrow> bool" where
  "wordBoundary prev rest \<longleftrightarrow>
     (case prev of None \<Rightarrow> False | Some c \<Rightarrow> isWord c) \<noteq>
     (case rest of [] \<Rightarrow> False | c # _ \<Rightarrow> isWord c)"

text \<open>
  The pieces of the anchored patterns: one code unit of a class, a class repeated (\<open>*\<close>,
  \<open>+\<close>), and an alternative of literals compared without case. A pattern is a sequence
  of pieces between \<open>^\<close> and \<open>$\<close>.
\<close>

datatype piece =
    One "unit16 \<Rightarrow> bool"
  | Many0 "unit16 \<Rightarrow> bool"
  | Many1 "unit16 \<Rightarrow> bool"
  | AltCI "jsstring list"

fun matches :: "piece list \<Rightarrow> jsstring \<Rightarrow> bool" where
  "matches [] s = (s = [])"
| "matches (One p # r) s = (case s of [] \<Rightarrow> False | c # cs \<Rightarrow> p c \<and> matches r cs)"
| "matches (Many0 p # r) s =
     (matches r s \<or> (case s of [] \<Rightarrow> False | c # cs \<Rightarrow> p c \<and> matches (Many0 p # r) cs))"
| "matches (Many1 p # r) s =
     (case s of [] \<Rightarrow> False | c # cs \<Rightarrow> p c \<and> matches (Many0 p # r) cs)"
| "matches (AltCI ks # r) s =
     list_ex (\<lambda>k. prefix_ci k s \<and> matches r (drop (length k) s)) ks"

definition isChar :: "unit16 \<Rightarrow> unit16 \<Rightarrow> bool" where
  "isChar a c \<longleftrightarrow> c = a"

definition BAR :: unit16 where "BAR = 0x7C"
definition DASH :: unit16 where "DASH = 0x2D"
definition AT :: unit16 where "AT = 0x40"
definition DOT :: unit16 where "DOT = 0x2E"
definition COLON :: unit16 where "COLON = 0x3A"

text \<open>The four signature separators, in the order of the source:
  \<^verbatim>\<open>/^[|]+\s*$/\<close>, \<^verbatim>\<open>/^\s*[-]+\s*$/\<close>, \<^verbatim>\<open>/^[|]\s*[|]\s*$/\<close>, \<^verbatim>\<open>/^\s*[|]\s*$/\<close>.\<close>

definition sepBars :: "piece list" where
  "sepBars = [Many1 (isChar BAR), Many0 isSpace]"

definition sepDashes :: "piece list" where
  "sepDashes = [Many0 isSpace, Many1 (isChar DASH), Many0 isSpace]"

definition sepTwoBars :: "piece list" where
  "sepTwoBars = [One (isChar BAR), Many0 isSpace, One (isChar BAR), Many0 isSpace]"

definition sepOneBar :: "piece list" where
  "sepOneBar = [Many0 isSpace, One (isChar BAR), Many0 isSpace]"

definition isSeparator :: "jsstring \<Rightarrow> bool" where
  "isSeparator line \<longleftrightarrow>
     matches sepBars line \<or> matches sepDashes line \<or>
     matches sepTwoBars line \<or> matches sepOneBar line"

text \<open>The bare address \<^verbatim>\<open>/^[^\s]+@[^\s]+\.[^\s]+$/\<close> and its two labelled forms (flag \<open>i\<close>):
  a label of \<open>U+53D1 U+4EF6 U+4EBA\<close>, \<open>from\<close> or \<open>sender\<close>, and a label of
  \<open>U+90AE U+7BB1\<close>, \<open>email\<close> or \<open>U+8054 U+7CFB\<close>, each followed by
  \<^verbatim>\<open>:\s*\<close> and the address.\<close>

definition address :: "piece list" where
  "address = [Many1 notSpace, One (isChar AT), Many1 notSpace, One (isChar DOT), Many1 notSpace]"

definition senderLabels :: "jsstring list" where
  "senderLabels = [[0x53D1, 0x4EF6, 0x4EBA], js ''from'', js ''sender'']"

definition contactLabels :: "jsstring list" where
  "contactLabels = [[0x90AE, 0x7BB1], js ''email'', [0x8054, 0x7CFB]]"

definition isEmailSignature :: "jsstring \<Rightarrow> bool" where
  "isEmailSignature line \<longleftrightarrow>
     matches address line \<or>
     matches (AltCI senderLabels # One (isChar COLON) # Many0 isSpace # address) line \<or>
     matches (AltCI contactLabels # One (isChar COLON) # Many0 isSpace # address) line"

text \<open>
  \<^verbatim>\<open>/\b(code|...|password|auth|token|key)\b/i.test(line)\<close>, the second and third
  alternatives being \<open>U+9A8C U+8BC1 U+7801\<close> and \<open>U+5BC6 U+7801\<close>. The pattern is
  not anchored: it is tried at every position of the line. At one position it asks for a
  word boundary, an alternative, and a word boundary after the code units the alternative
  has consumed (every alternative is non-empty, so \<open>last\<close> is of a non-empty list).
\<close>

definition sensitiveWords :: "jsstring list" where
  "sensitiveWords = [js ''code'', [0x9A8C, 0x8BC1, 0x7801], [0x5BC6, 0x7801],
               js ''password'', js ''auth'', js ''token'', js ''key'']"

definition importantAt :: "unit16 option \<Rightarrow> jsstring \<Rightarrow> bool" where
  "importantAt prev rest \<longleftrightarrow>
     wordBoundary prev rest \<and>
     list_ex (\<lambda>k. prefix_ci k rest \<and>
                  wordBoundary (Some (last (take (length k) rest))) (drop (length k) rest))
             sensitiveWords"

fun searchImportant :: "unit16 option \<Rightarrow> jsstring \<Rightarrow> bool" where
  "searchImportant prev [] = importantAt prev []"
| "searchImportant prev (c # cs) = (importantAt prev (c # cs) \<or> searchImportant (Some c) cs)"

definition hasImportantInfo :: "jsstring \<Rightarrow> bool" where
  "hasImportantInfo line = searchImportant None line"

section \<open>cleanEmailContent\<close>

text \<open>
  The loop over the trimmed lines, with \<open>coreContent\<close> as its accumulator: \<open>continue\<close>
  goes on with the rest, \<open>break\<close> returns what has been collected.
\<close>

fun cleanLoop :: "jsstring list \<Rightarrow> jsstring list \<Rightarrow> jsstring list" where
  "cleanLoop [] coreContent = coreContent"
| "cleanLoop (line # lines) coreContent =
     (if line = [] then cleanLoop lines coreContent
      else if hasImportantInfo line then cleanLoop lines (coreContent @ [line])
      else if isSeparator line then coreContent
      else if isEmailSignature line then coreContent
      else if length line > 0 then cleanLoop lines (coreContent @ [line])
      else cleanLoop lines coreContent)"

definition cleanEmailContent :: "jsstring \<Rightarrow> jsstring" where
  "cleanEmailContent rawText =
     (if rawText = [] then []
      else trim (join LF (cleanLoop (map trim (split LF rawText)) [])))"

text \<open>A line that the loop appends when it meets it: not blank, and either protected or
  neither a separator nor a signature.\<close>

definition kept :: "jsstring \<Rightarrow> bool" where
  "kept l \<longleftrightarrow> l \<noteq> [] \<and> (hasImportantInfo l \<or> (\<not> isSeparator l \<and> \<not> isEmailSignature l))"

section \<open>The watcher\<close>

text \<open>
  The module-level variables of the watcher. The timers, the configuration and the callback
  are modelled by whether the reference is non-null; \<open>lastCheckedUids\<close> is the
  \<open>Set<number>\<close> of UIDs. \<open>imap\<close> is null or the session object that
  \<open>connectToMailMonitor\<close> has created last: its listeners (\<open>once\<close> for \<open>ready\<close>,
  \<open>error\<close> and \<open>end\<close>, \<open>on\<close> for \<open>mail\<close>), whether an \<open>openBox\<close> is under way,
  whether a folder is selected, and whether the promise whose \<open>resolve\<close> and \<open>reject\<close>
  its listeners hold is still pending, and for whom. There is one session at a time: where
  \<open>imap\<close> is null the last session has no listener left (both places that clear the
  reference call \<open>removeAllListeners\<close> first), callbacks of its commands do not arrive any
  more, and a session that a later one has replaced is not modelled.
  The functions below are the same in both watcher sources unless a suffix \<open>_old\<close> says
  otherwise; the newer source is the one with \<open>cleanEmailContent\<close>, the older one is the
  watcher of \<open>src/index.ts\<close>.
\<close>

type_synonym uid = nat

record message =
  seqno :: int
  uid :: uid

text \<open>Who waits for the promise of a connection attempt: the \<open>await\<close> of
  \<open>startMailMonitor\<close>, or the \<open>catch\<close> of the reconnect timer, which logs.\<close>

datatype waiter = ByStart | ByReconnect

record session =
  readyListener :: bool
  errorListener :: bool
  endListener :: bool
  mailListener :: bool
  openBoxPending :: bool
  boxSelected :: bool
  awaitedBy :: "waiter option"

record watcher =
  imap :: "session option"
  isMonitoring :: bool
  reconnectTimer :: bool
  pollTimer :: bool
  lastMailCount :: nat
  imapConfig :: bool
  onNewMailCallback :: bool
  lastCheckedUids :: "uid set"

datatype error = ConfigMissing | NoSession | ConnectFailed | ProtocolError | NothingToFetch

datatype timer = PollTimer | ReconnectTimer

text \<open>
  What a handler asks of the protocol client, the timers and the dispatcher, and what the
  caller of \<open>startMailMonitor\<close> gets back. Log lines are left out. \<open>Uncaught\<close> is an
  exception that leaves the handler: the TypeError of \<open>imap!.fetch\<close> on a null reference,
  the error of \<open>imap.search\<close> on a session with no folder selected, and the error that the
  emitter throws for an \<open>error\<close> event with no listener.
\<close>

datatype effect =
    NewSession
  | OpenBox
  | ListenMail
  | Search
  | Fetch "uid list"
  | Notify "message list"
  | SetTimeout timer nat
  | ClearTimeout timer
  | RemoveAllListeners
  | EndSession
  | Uncaught
  | StartResolves
  | StartRejects error

type_synonym outcome = "watcher \<times> effect list"

definition andThen :: "outcome \<Rightarrow> (watcher \<Rightarrow> outcome) \<Rightarrow> outcome" where
  "andThen r f = (case f (fst r) of (s', es) \<Rightarrow> (s', snd r @ es))"

definition initial :: watcher where
  "initial = \<lparr> imap = None, isMonitoring = False, reconnectTimer = False, pollTimer = False,
               lastMailCount = 0, imapConfig = False, onNewMailCallback = False,
               lastCheckedUids = {} \<rparr>"

definition onSession :: "(session \<Rightarrow> session) \<Rightarrow> watcher \<Rightarrow> watcher" where
  "onSession f s = s\<lparr>imap := map_option f (imap s)\<rparr>"

definition getMonitorStatus :: "watcher \<Rightarrow> bool \<times> nat" where
  "getMonitorStatus s = (isMonitoring s, lastMailCount s)"

text \<open>
  \<open>reject\<close> and \<open>resolve\<close> of the promise of a connection attempt; \<open>w\<close> is the state of
  that promise when the listener runs. A settled promise stays as it is. When
  \<open>startMailMonitor\<close> waits, its \<open>catch\<close> sets \<open>isMonitoring\<close> to false and throws the
  error again, and after a \<open>resolve\<close> it returns.
\<close>

definition reject :: "waiter option \<Rightarrow> error \<Rightarrow> watcher \<Rightarrow> outcome" where
  "reject w err s =
     (let s1 = onSession (\<lambda>c. c\<lparr>awaitedBy := None\<rparr>) s in
      case w of
        Some ByStart \<Rightarrow> (s1\<lparr>isMonitoring := False\<rparr>, [StartRejects err])
      | Some ByReconnect \<Rightarrow> (s1, [])
      | None \<Rightarrow> (s1, []))"

definition resolve :: "waiter option \<Rightarrow> watcher \<Rightarrow> outcome" where
  "resolve w s =
     (let s1 = onSession (\<lambda>c. c\<lparr>awaitedBy := None\<rparr>) s in
      case w of
        Some ByStart \<Rightarrow> (s1, [StartResolves])
      | Some ByReconnect \<Rightarrow> (s1, [])
      | None \<Rightarrow> (s1, []))"

definition startPolling :: "watcher \<Rightarrow> outcome" where
  "startPolling s =
     (if \<not> isMonitoring s then (s, [])
      else (s\<lparr>pollTimer := True\<rparr>, [SetTimeout PollTimer 10000]))"

text \<open>\<open>imap.search\<close> throws when the session has no folder selected; the exception leaves
  \<open>fetchLatestUnread\<close> and its caller.\<close>

definition searchThrows :: "watcher \<Rightarrow> bool" where
  "searchThrows s =
     (case imap s of None \<Rightarrow> False | Some c \<Rightarrow> isMonitoring s \<and> \<not> boxSelected c)"

definition fetchLatestUnread :: "watcher \<Rightarrow> outcome" where
  "fetchLatestUnread s =
     (case imap s of
        None \<Rightarrow> (s, [])
      | Some c \<Rightarrow>
          if \<not> isMonitoring s then (s, [])
          else if boxSelected c then (s, [Search])
          else (s, [Uncaught]))"

text \<open>The callback of the poll timer: when the search throws, \<open>startPolling\<close> is not
  reached.\<close>

definition pollTimerCallback :: "watcher \<Rightarrow> outcome" where
  "pollTimerCallback s =
     (if isMonitoring s then
        (if searchThrows s then fetchLatestUnread s
         else andThen (fetchLatestUnread s) startPolling)
      else (s, []))"

text \<open>The callback of \<open>imap.search(['UNSEEN'], ...)\<close> in the newer source: the new UIDs
  enter the ledger, then the fetch is issued.\<close>

definition searchCallback :: "error + uid list \<Rightarrow> watcher \<Rightarrow> outcome" where
  "searchCallback res s =
     (case res of
        Inl err \<Rightarrow> (s, [])
      | Inr results \<Rightarrow>
          if results = [] then (s, [])
          else
            let newUids = filter (\<lambda>u. u \<notin> lastCheckedUids s) results in
            if newUids = [] then (s, [])
            else
              let s' = s\<lparr>lastCheckedUids := lastCheckedUids s \<union> set newUids\<rparr> in
              if imap s' = None then (s', [Uncaught]) else (s', [Fetch newUids]))"

text \<open>The same callback in the older source: the fetch is issued and the ledger is left as it
  is; a UID enters the ledger in the \<open>attributes\<close> callback of its message.\<close>

definition searchCallback_old :: "error + uid list \<Rightarrow> watcher \<Rightarrow> outcome" where
  "searchCallback_old res s =
     (case res of
        Inl err \<Rightarrow> (s, [])
      | Inr results \<Rightarrow>
          if results = [] then (s, [])
          else
            let newUids = filter (\<lambda>u. u \<notin> lastCheckedUids s) results in
            if newUids = [] then (s, [])
            else if imap s = None then (s, [Uncaught]) else (s, [Fetch newUids]))"

definition attributesCallback :: "uid \<Rightarrow> watcher \<Rightarrow> outcome" where
  "attributesCallback u s = (s, [])"

definition attributesCallback_old :: "uid \<Rightarrow> watcher \<Rightarrow> outcome" where
  "attributesCallback_old u s = (s\<lparr>lastCheckedUids := insert u (lastCheckedUids s)\<rparr>, [])"

text \<open>\<open>messages.sort((a, b) => b.seqno - a.seqno)\<close>: a stable sort, newest first.\<close>

definition sortBySeqnoDesc :: "message list \<Rightarrow> message list" where
  "sortBySeqnoDesc ms = sort_key (\<lambda>m. - seqno m) ms"

text \<open>The \<open>end\<close> callback of a fetch, with the messages its closure has collected.\<close>

definition fetchEndCallback :: "message list \<Rightarrow> watcher \<Rightarrow> outcome" where
  "fetchEndCallback messages s =
     (if length messages > 0 then
        (if onNewMailCallback s then (s, [Notify (sortBySeqnoDesc messages)]) else (s, []))
      else (s, []))"

definition handleDisconnect :: "watcher \<Rightarrow> outcome" where
  "handleDisconnect s =
     (if \<not> isMonitoring s then (s, [])
      else
        let r = (if imap s \<noteq> None then (s\<lparr>imap := None\<rparr>, [RemoveAllListeners]) else (s, []))
        in ((fst r)\<lparr>reconnectTimer := True\<rparr>, snd r @ [SetTimeout ReconnectTimer 10000]))"

text \<open>
  The body of the promise of \<open>connectToMailMonitor\<close>, up to \<open>imap.connect()\<close>: a new
  session with its three \<open>once\<close> listeners takes the place of \<open>imap\<close>.
\<close>

definition newSession :: "waiter \<Rightarrow> session" where
  "newSession w = \<lparr> readyListener = True, errorListener = True, endListener = True,
                    mailListener = False, openBoxPending = False, boxSelected = False,
                    awaitedBy = Some w \<rparr>"

definition connectToMailMonitor :: "waiter \<Rightarrow> watcher \<Rightarrow> outcome" where
  "connectToMailMonitor w s =
     (if \<not> imapConfig s then reject (Some w) ConfigMissing s
      else (s\<lparr>imap := Some (newSession w)\<rparr>, [NewSession]))"

text \<open>\<open>openBoxAndListen\<close> up to the call of \<open>openBox\<close>, and the callback of \<open>openBox\<close>;
  the client has selected the folder when it calls back without an error. On a null
  reference \<open>imap!.on\<close> throws.\<close>

definition openBoxAndListen :: "waiter option \<Rightarrow> watcher \<Rightarrow> outcome" where
  "openBoxAndListen w s =
     (if imap s = None then reject w NoSession s
      else (onSession (\<lambda>c. c\<lparr>openBoxPending := True\<rparr>) s, [OpenBox]))"

definition openBoxCallback :: "waiter option \<Rightarrow> error + nat \<Rightarrow> watcher \<Rightarrow> outcome" where
  "openBoxCallback w box s =
     (case box of
        Inl err \<Rightarrow> reject w err s
      | Inr boxTotal \<Rightarrow>
          let s1 = (onSession (\<lambda>c. c\<lparr>boxSelected := True\<rparr>) s)\<lparr>lastMailCount := boxTotal\<rparr> in
          if searchThrows s1 then fetchLatestUnread s1
          else if imap s1 = None then (s1, [Uncaught])
          else
            let r1 = fetchLatestUnread s1;
                r2 = (onSession (\<lambda>c. c\<lparr>mailListener := True\<rparr>) (fst r1), snd r1 @ [ListenMail]);
                r3 = andThen r2 startPolling
            in andThen r3 (resolve w))"

text \<open>The listeners that \<open>connectToMailMonitor\<close> and \<open>openBoxAndListen\<close> register. A
  \<open>once\<close> listener is removed before it runs. An \<open>error\<close> event that finds no listener is
  thrown by the emitter.\<close>

definition readyListenerCallback :: "watcher \<Rightarrow> outcome" where
  "readyListenerCallback s =
     (case imap s of
        None \<Rightarrow> (s, [])
      | Some c \<Rightarrow>
          if readyListener c
          then openBoxAndListen (awaitedBy c) (onSession (\<lambda>c. c\<lparr>readyListener := False\<rparr>) s)
          else (s, []))"

definition errorListenerCallback :: "watcher \<Rightarrow> outcome" where
  "errorListenerCallback s =
     (case imap s of
        None \<Rightarrow> (s, [Uncaught])
      | Some c \<Rightarrow>
          if errorListener c
          then andThen (handleDisconnect (onSession (\<lambda>c. c\<lparr>errorListener := False\<rparr>) s))
                       (reject (awaitedBy c) ConnectFailed)
          else (s, [Uncaught]))"

definition endListenerCallback :: "watcher \<Rightarrow> outcome" where
  "endListenerCallback s =
     (case imap s of
        None \<Rightarrow> (s, [])
      | Some c \<Rightarrow>
          if endListener c
          then handleDisconnect (onSession (\<lambda>c. c\<lparr>endListener := False\<rparr>) s)
          else (s, []))"

definition mailListenerCallback :: "watcher \<Rightarrow> outcome" where
  "mailListenerCallback s =
     (case imap s of
        None \<Rightarrow> (s, [])
      | Some c \<Rightarrow> if mailListener c then fetchLatestUnread s else (s, []))"

definition openBoxReturns :: "error + nat \<Rightarrow> watcher \<Rightarrow> outcome" where
  "openBoxReturns box s =
     (case imap s of
        None \<Rightarrow> (s, [])
      | Some c \<Rightarrow>
          if openBoxPending c
          then openBoxCallback (awaitedBy c) box (onSession (\<lambda>c. c\<lparr>openBoxPending := False\<rparr>) s)
          else (s, []))"

text \<open>\<open>startMailMonitor\<close> up to its \<open>await\<close>, and the callback of the reconnect timer (a
  failing attempt is logged by its \<open>catch\<close>).\<close>

definition startCall :: "watcher \<Rightarrow> outcome" where
  "startCall s =
     (if isMonitoring s then (s, [StartResolves])
      else connectToMailMonitor ByStart
             (s\<lparr>imapConfig := True, onNewMailCallback := True, isMonitoring := True\<rparr>))"

definition reconnectTimerFires :: "watcher \<Rightarrow> outcome" where
  "reconnectTimerFires s =
     (if isMonitoring s then connectToMailMonitor ByReconnect s else (s, []))"

definition stopMailMonitor :: "watcher \<Rightarrow> outcome" where
  "stopMailMonitor s =
     (let s1 = s\<lparr>isMonitoring := False\<rparr>;
          r2 = (if reconnectTimer s1
                then (s1\<lparr>reconnectTimer := False\<rparr>, [ClearTimeout ReconnectTimer])
                else (s1, []));
          r3 = (if pollTimer (fst r2)
                then ((fst r2)\<lparr>pollTimer := False\<rparr>, snd r2 @ [ClearTimeout PollTimer])
                else r2);
          r4 = (if imap (fst r3) \<noteq> None
                then ((fst r3)\<lparr>imap := None\<rparr>, snd r3 @ [RemoveAllListeners, EndSession])
                else r3)
      in ((fst r4)\<lparr>lastCheckedUids := {}\<rparr>, snd r4))"

text \<open>The calls and callbacks as events, one handler at a time.\<close>

datatype event =
    StartCommand
  | StopCommand
  | ReadyEvent
  | OpenBoxReturns "error + nat"
  | ConnectionError
  | ConnectionEnd
  | MailEvent
  | PollTimerFires
  | ReconnectTimerFires
  | SearchReturns "error + uid list"
  | MessageAttributes uid
  | FetchEnds "message list"

fun handle :: "event \<Rightarrow> watcher \<Rightarrow> outcome" where
  "handle StartCommand s = startCall s"
| "handle StopCommand s = stopMailMonitor s"
| "handle ReadyEvent s = readyListenerCallback s"
| "handle (OpenBoxReturns box) s = openBoxReturns box s"
| "handle ConnectionError s = errorListenerCallback s"
| "handle ConnectionEnd s = endListenerCallback s"
| "handle MailEvent s = mailListenerCallback s"
| "handle PollTimerFires s = pollTimerCallback s"
| "handle ReconnectTimerFires s = reconnectTimerFires s"
| "handle (SearchReturns res) s = searchCallback res s"
| "handle (MessageAttributes u) s = attributesCallback u s"
| "handle (FetchEnds ms) s = fetchEndCallback ms s"

fun handle_old :: "event \<Rightarrow> watcher \<Rightarrow> outcome" where
  "handle_old (SearchReturns res) s = searchCallback_old res s"
| "handle_old (MessageAttributes u) s = attributesCallback_old u s"
| "handle_old e s = handle e s"

fun run :: "event list \<Rightarrow> watcher \<Rightarrow> outcome" where
  "run [] s = (s, [])"
| "run (e # es) s = andThen (handle e s) (run es)"

fun run_old :: "event list \<Rightarrow> watcher \<Rightarrow> outcome" where
  "run_old [] s = (s, [])"
| "run_old (e # es) s = andThen (handle_old e s) (run_old es)"

text \<open>
  How a connection attempt goes when no other event comes in between: the \<open>error\<close> event
  before \<open>ready\<close>, the \<open>end\<close> event before \<open>ready\<close>, \<open>ready\<close> and then a failing
  \<open>openBox\<close>, or \<open>ready\<close> and an open folder with its message count.
\<close>

datatype attempt = ErrorEvent | EndEvent | OpenBoxError | Opened nat

fun attemptEvents :: "attempt \<Rightarrow> event list" where
  "attemptEvents ErrorEvent = [ConnectionError]"
| "attemptEvents EndEvent = [ConnectionEnd]"
| "attemptEvents OpenBoxError = [ReadyEvent, OpenBoxReturns (Inl ProtocolError)]"
| "attemptEvents (Opened boxTotal) = [ReadyEvent, OpenBoxReturns (Inr boxTotal)]"

text \<open>What the caller of \<open>startMailMonitor\<close> has got so far.\<close>

datatype settlement = Resolved | RejectedWith error | StillPending

fun settlementOf :: "effect list \<Rightarrow> settlement" where
  "settlementOf [] = StillPending"
| "settlementOf (StartResolves # es) = Resolved"
| "settlementOf (StartRejects err # es) = RejectedWith err"
| "settlementOf (e # es) = settlementOf es"

text \<open>\<open>startMailMonitor\<close> as a whole, and the reconnect timer with the attempt it starts,
  for an attempt that goes as \<open>a\<close>.\<close>

definition startMailMonitor :: "attempt \<Rightarrow> watcher \<Rightarrow> outcome \<times> settlement" where
  "startMailMonitor a s =
     (if isMonitoring s then (startCall s, Resolved)
      else
        let r = run (StartCommand # attemptEvents a) s
        in (r, settlementOf (snd r)))"

definition reconnectTimerCallback :: "attempt \<Rightarrow> watcher \<Rightarrow> outcome" where
  "reconnectTimerCallback a s =
     (if isMonitoring s then run (ReconnectTimerFires # attemptEvents a) s else (s, []))"

fun fetched :: "effect list \<Rightarrow> uid list" where
  "fetched [] = []"
| "fetched (Fetch us # es) = us @ fetched es"
| "fetched (e # es) = fetched es"

fun notified :: "effect list \<Rightarrow> uid list" where
  "notified [] = []"
| "notified (Notify ms # es) = map uid ms @ notified es"
| "notified (e # es) = notified es"

text \<open>
  \<open>fetchLatestUnread\<close> of the newer source with its nested callbacks run in a row (no
  other event in between): the guard and the search, the callback of the search with the
  server's answer, and, when a fetch is issued, its \<open>end\<close> callback with the messages the
  server sends for the UIDs asked.
\<close>

definition detectionPass ::
    "error + uid list \<Rightarrow> (uid list \<Rightarrow> message list) \<Rightarrow> watcher \<Rightarrow> outcome" where
  "detectionPass answer reply s =
     (case fetchLatestUnread s of
        (s0, [Search]) \<Rightarrow>
          (case searchCallback answer s0 of
             (s1, [Fetch us]) \<Rightarrow> andThen (s1, [Search, Fetch us]) (fetchEndCallback (reply us))
           | (s1, es) \<Rightarrow> (s1, Search # es))
      | r \<Rightarrow> r)"

text \<open>The events of one run of the watcher: no stop, and a search answers with each UID
  once.\<close>

fun inRun :: "event \<Rightarrow> bool" where
  "inRun (SearchReturns (Inr us)) = distinct us"
| "inRun StopCommand = False"
| "inRun e = True"

text \<open>
  The fetches of a run are answered in the order they were issued, each with messages of
  UIDs it asked for, none twice: \<open>served\<close> follows a list of events with the fetches that are
  still to end.
\<close>

fun requests :: "effect list \<Rightarrow> uid list list" where
  "requests [] = []"
| "requests (Fetch us # es) = us # requests es"
| "requests (e # es) = requests es"

fun served :: "event list \<Rightarrow> watcher \<Rightarrow> uid list list \<Rightarrow> bool" where
  "served [] s pending = True"
| "served (FetchEnds ms # evs) s pending =
     (case pending of
        [] \<Rightarrow> False
      | us # rest \<Rightarrow>
          distinct (map uid ms) \<and> set (map uid ms) \<subseteq> set us \<and>
          served evs (fst (handle (FetchEnds ms) s)) rest)"
| "served (e # evs) s pending =
     served evs (fst (handle e s)) (pending @ requests (snd (handle e s)))"

section \<open>The dispatcher\<close>

text \<open>
  \<open>ctx.broadcast(text)\<close> returns a promise: it resolves, it rejects, or the call throws
  before a promise exists. What is thrown or what the promise rejects with is an object
  (\<open>Rejected\<close>, \<open>Threw\<close>) or \<open>undefined\<close> or \<open>null\<close> (\<open>RejectedNullish\<close>,
  \<open>ThrewNullish\<close>). \<open>available\<close> is the value of \<open>imap && isMonitoring\<close> when the
  post-processing of a message starts; the server may refuse a flag or the expunge, with an
  error object. The messages of a batch carry their headers.
\<close>

datatype send_outcome = Delivered | Rejected | Threw | RejectedNullish | ThrewNullish

datatype flag = Seen | Deleted

record dispatch_env =
  broadcast :: "message \<Rightarrow> send_outcome"
  available :: "uid \<Rightarrow> bool"
  addFlagsFails :: "uid \<Rightarrow> bool"
  expungeFails :: "uid \<Rightarrow> bool"

datatype action =
    Broadcast uid
  | AddFlags uid flag
  | Expunge
  | LogSendFailed uid
  | LogPostFailed uid
  | CatchThrows uid

text \<open>\<open>markEmailAsRead\<close> of the newer source and \<open>deleteEmailByUid\<close> of the older one: the
  commands sent to the server and how the promise settles.\<close>

definition markEmailAsRead :: "dispatch_env \<Rightarrow> uid \<Rightarrow> action list \<times> (error + unit)" where
  "markEmailAsRead env u =
     (if \<not> available env u then ([], Inl NoSession)
      else if addFlagsFails env u then ([AddFlags u Seen], Inl ProtocolError)
      else ([AddFlags u Seen], Inr ()))"

definition deleteEmailByUid :: "dispatch_env \<Rightarrow> uid \<Rightarrow> action list \<times> (error + unit)" where
  "deleteEmailByUid env u =
     (if \<not> available env u then ([], Inl NoSession)
      else if addFlagsFails env u then ([AddFlags u Deleted], Inl ProtocolError)
      else if expungeFails env u then ([AddFlags u Deleted, Expunge], Inl ProtocolError)
      else ([AddFlags u Deleted, Expunge], Inr ()))"

text \<open>
  The body of the loop of \<open>handleNewMail\<close> in the newer source, and whether the loop goes
  on after it. The broadcast is awaited inside the outer \<open>try\<close>, so a rejection and a throw
  both reach its \<open>catch\<close>. The \<open>catch\<close> logs \<open>error.constructor.name\<close>: for
  \<open>undefined\<close> and \<open>null\<close> this read throws, the exception leaves the loop and the
  messages after this one are not handled.
\<close>

definition dispatchOne :: "dispatch_env \<Rightarrow> message \<Rightarrow> action list \<times> bool" where
  "dispatchOne env msg =
     (case broadcast env msg of
        Delivered \<Rightarrow>
          (case markEmailAsRead env (uid msg) of
             (as, Inl err) \<Rightarrow> (Broadcast (uid msg) # as @ [LogPostFailed (uid msg)], True)
           | (as, Inr u) \<Rightarrow> (Broadcast (uid msg) # as, True))
      | Rejected \<Rightarrow> ([Broadcast (uid msg), LogSendFailed (uid msg)], True)
      | Threw \<Rightarrow> ([Broadcast (uid msg), LogSendFailed (uid msg)], True)
      | RejectedNullish \<Rightarrow> ([Broadcast (uid msg), CatchThrows (uid msg)], False)
      | ThrewNullish \<Rightarrow> ([Broadcast (uid msg), CatchThrows (uid msg)], False))"

fun handleNewMail :: "dispatch_env \<Rightarrow> message list \<Rightarrow> action list" where
  "handleNewMail env [] = []"
| "handleNewMail env (msg # messages) =
     (case dispatchOne env msg of
        (as, True) \<Rightarrow> as @ handleNewMail env messages
      | (as, False) \<Rightarrow> as)"

text \<open>The body of the loop in the older source: the broadcast is called and not awaited, so
  only a throw reaches the \<open>catch\<close> (which logs the error as it is); after a promise of
  either fate the message is deleted.\<close>

definition dispatchOne_old :: "dispatch_env \<Rightarrow> message \<Rightarrow> action list" where
  "dispatchOne_old env msg =
     (case broadcast env msg of
        Threw \<Rightarrow> [Broadcast (uid msg), LogSendFailed (uid msg)]
      | ThrewNullish \<Rightarrow> [Broadcast (uid msg), LogSendFailed (uid msg)]
      | _ \<Rightarrow>
          (case deleteEmailByUid env (uid msg) of
             (as, Inl err) \<Rightarrow> Broadcast (uid msg) # as @ [LogPostFailed (uid msg)]
           | (as, Inr u) \<Rightarrow> Broadcast (uid msg) # as))"

fun handleNewMail_old :: "dispatch_env \<Rightarrow> message list \<Rightarrow> action list" where
  "handleNewMail_old env [] = []"
| "handleNewMail_old env (msg # messages) =
     dispatchOne_old env msg @ handleNewMail_old env messages"

fun broadcasts :: "action list \<Rightarrow> uid list" where
  "broadcasts [] = []"
| "broadcasts (Broadcast u # as) = u # broadcasts as"
| "broadcasts (a # as) = broadcasts as"

fun touched :: "action list \<Rightarrow> uid set" where
  "touched [] = {}"
| "touched (AddFlags u f # as) = insert u (touched as)"
| "touched (a # as) = touched as"

section \<open>Listing\<close>

text \<open>
  The folder as the listing commands see it: the UIDs of its messages in sequence order (the
  message at position \<open>i\<close> has sequence number \<open>i\<close>), whether \<open>openBox\<close> or a fetch
  fails, and what a search answers. The protocol client addresses messages by UID in
  \<open>search\<close>, \<open>fetch\<close> and \<open>addFlags\<close> (its sequence-number variants are under \<open>seq\<close> and
  are not used by the sources); a range \<open>a:b\<close> is the same set as \<open>b:a\<close>; a UID that no
  message has is skipped.
\<close>

datatype criteria = CritUNSEEN | CritRECENT | CritALL

datatype source = UidList "uid list" | UidRange int int

record server =
  openBoxFails :: bool
  inbox :: "uid list"
  searchAnswer :: "criteria \<Rightarrow> error + uid list"
  fetchFails :: bool

fun numbered :: "int \<Rightarrow> uid list \<Rightarrow> message list" where
  "numbered i [] = []"
| "numbered i (u # us) = \<lparr> seqno = i, uid = u \<rparr> # numbered (i + 1) us"

fun inSource :: "source \<Rightarrow> uid \<Rightarrow> bool" where
  "inSource (UidList us) u = (u \<in> set us)"
| "inSource (UidRange a b) u = (min a b \<le> int u \<and> int u \<le> max a b)"

definition imap_fetch :: "server \<Rightarrow> source \<Rightarrow> message list" where
  "imap_fetch srv src = filter (\<lambda>m. inSource src (uid m)) (numbered 1 (inbox srv))"

text \<open>\<open>xs.slice(k)\<close>: a negative \<open>k\<close> counts from the end.\<close>

definition slice :: "int \<Rightarrow> 'a list \<Rightarrow> 'a list" where
  "slice k xs =
     (let len = int (length xs);
          from = (if k < 0 then max (len + k) 0 else min k len)
      in drop (nat from) xs)"

definition sortByUidDesc :: "message list \<Rightarrow> message list" where
  "sortByUidDesc ms = sort_key (\<lambda>m. - int (uid m)) ms"

definition getMailList :: "server \<Rightarrow> int \<Rightarrow> error + message list" where
  "getMailList srv limit =
     (if openBoxFails srv then Inl ProtocolError
      else
        let boxTotal = int (length (inbox srv)) in
        if boxTotal = 0 then Inr []
        else
          let start = max 1 (boxTotal - limit + 1);
              endNo = boxTotal;
              messages = imap_fetch srv (UidRange start endNo)
          in if fetchFails srv then Inl ProtocolError
             else Inr (sortBySeqnoDesc messages))"

text \<open>In \<open>searchMails\<close> an empty source makes \<open>imap.fetch\<close> throw inside the callback of
  the search; the promise is then not settled, which is the error \<open>NothingToFetch\<close> here.\<close>

definition searchMails :: "server \<Rightarrow> criteria \<Rightarrow> int \<Rightarrow> error + message list" where
  "searchMails srv crit limit =
     (if openBoxFails srv then Inl ProtocolError
      else if length (inbox srv) = 0 then Inr []
      else
        (case searchAnswer srv crit of
           Inl err \<Rightarrow> Inl err
         | Inr results \<Rightarrow>
             if results = [] then Inr []
             else
               let limitedResults = slice (- limit) results in
               if limitedResults = [] then Inl NothingToFetch
               else if fetchFails srv then Inl ProtocolError
               else Inr (sortByUidDesc (imap_fetch srv (UidList limitedResults)))))"

text \<open>The branch \<open>all\<close> of the command \<open>mailbot.list\<close>: the search, and the listing by
  range when the search is rejected.\<close>

definition listAll :: "server \<Rightarrow> int \<Rightarrow> error + message list" where
  "listAll srv limit =
     (case searchMails srv CritALL limit of
        Inr messages \<Rightarrow> Inr messages
      | Inl searchError \<Rightarrow> getMailList srv limit)"

text \<open>The message of sequence number \<open>i\<close> in a folder whose UIDs are its sequence
  numbers.\<close>

definition entry :: "int \<Rightarrow> message" where
  "entry i = \<lparr> seqno = i, uid = nat i \<rparr>"

section \<open>Properties of cleanEmailContent\<close>

subsection \<open>Splitting, joining and trimming\<close>

lemma split_not_Nil: "split sep s \<noteq> []"
  by (induction s) (auto split: list.splits)

lemma split_no_sep: "sep \<notin> set x \<Longrightarrow> split sep x = [x]"
  by (induction x) auto

lemma split_append_sep: "sep \<notin> set x \<Longrightarrow> split sep (x @ sep # rest) = x # split sep rest"
  by (induction x) auto

lemma split_pieces_no_sep: "p \<in> set (split sep s) \<Longrightarrow> sep \<notin> set p"
proof (induction s arbitrary: p)
  case Nil
  then show ?case by simp
next
  case (Cons c cs)
  show ?case
  proof (cases "c = sep")
    case True
    with Cons show ?thesis by auto
  next
    case False
    obtain q qs where q: "split sep cs = q # qs"
      using split_not_Nil [of sep cs] by (cases "split sep cs") auto
    with Cons False show ?thesis by auto
  qed
qed

lemma split_join:
  "ls \<noteq> [] \<Longrightarrow> \<forall>l \<in> set ls. sep \<notin> set l \<Longrightarrow> split sep (join sep ls) = ls"
proof (induction sep ls rule: join.induct)
  case (1 sep)
  then show ?case by simp
next
  case (2 sep x)
  then show ?case by (simp add: split_no_sep)
next
  case (3 sep x y ys)
  then show ?case by (simp add: split_append_sep)
qed

lemma set_trim: "set (trim s) \<subseteq> set s"
proof -
  have "set (trim s) \<subseteq> set (dropWhile isSpace s)"
    unfolding trim_def using set_dropWhileD by fastforce
  also have "\<dots> \<subseteq> set s" using set_dropWhileD by fastforce
  finally show ?thesis .
qed

lemma trim_stable:
  "s \<noteq> [] \<Longrightarrow> \<not> isSpace (hd s) \<Longrightarrow> \<not> isSpace (last s) \<Longrightarrow> trim s = s"
proof -
  assume a: "s \<noteq> []" "\<not> isSpace (hd s)" "\<not> isSpace (last s)"
  from a have 1: "dropWhile isSpace s = s" by (cases s) auto
  from a have "rev s \<noteq> []" "\<not> isSpace (hd (rev s))" by (auto simp: hd_rev)
  then have 2: "dropWhile isSpace (rev s) = rev s" by (cases "rev s") auto
  show ?thesis by (simp add: trim_def 1 2)
qed

lemma hd_dropWhile_not: "dropWhile P xs \<noteq> [] \<Longrightarrow> \<not> P (hd (dropWhile P xs))"
  using hd_dropWhile by blast

lemma trim_ends:
  assumes "trim s \<noteq> []"
  shows "\<not> isSpace (hd (trim s))" and "\<not> isSpace (last (trim s))"
proof -
  let ?a = "dropWhile isSpace s"
  let ?b = "dropWhile isSpace (rev ?a)"
  from assms have b: "?b \<noteq> []" by (simp add: trim_def)
  then have "\<not> isSpace (hd ?b)" by (rule hd_dropWhile)
  with b show "\<not> isSpace (last (trim s))" by (simp add: trim_def last_rev)
  have a: "?a \<noteq> []"
  proof
    assume e: "?a = []"
    have "?b = []" by (simp only: e rev.simps dropWhile.simps)
    with b show False by simp
  qed
  then have ha: "\<not> isSpace (hd ?a)" by (rule hd_dropWhile)
  have "rev (takeWhile isSpace (rev ?a) @ ?b) = ?a" by simp
  then have "trim s @ rev (takeWhile isSpace (rev ?a)) = ?a"
    unfolding trim_def rev_append .
  then have "hd ?a = hd (trim s)" using assms by (metis hd_append2)
  with ha show "\<not> isSpace (hd (trim s))" by simp
qed

lemma trim_trim: "trim (trim s) = trim s"
proof (cases "trim s = []")
  case True
  have "trim [] = []" by (simp add: trim_def)
  with True show ?thesis by simp
next
  case False
  then show ?thesis by (simp add: trim_stable trim_ends)
qed

lemma cleanLoop_acc: "cleanLoop lines core = core @ cleanLoop lines []"
proof (induction lines arbitrary: core)
  case Nil
  then show ?case by simp
next
  case (Cons l ls)
  have "cleanLoop ls (core @ [l]) = core @ cleanLoop ls [l]"
    using Cons [of "core @ [l]"] Cons [of "[l]"] by simp
  then show ?case using Cons [of core] by simp
qed

lemma cleanLoop_kept: "l \<in> set (cleanLoop lines []) \<Longrightarrow> l \<in> set lines \<and> kept l"
proof (induction lines)
  case Nil
  then show ?case by simp
next
  case (Cons x xs)
  then show ?case
    using cleanLoop_acc [of xs "[x]"] by (auto simp: kept_def split: if_splits)
qed

lemma cleanLoop_fixed: "\<forall>l \<in> set ks. kept l \<Longrightarrow> cleanLoop ks [] = ks"
proof (induction ks)
  case Nil
  then show ?case by simp
next
  case (Cons x xs)
  then show ?case
    using cleanLoop_acc [of xs "[x]"] by (auto simp: kept_def)
qed

lemma join_Nil_iff: "\<forall>l \<in> set ls. l \<noteq> [] \<Longrightarrow> join sep ls = [] \<longleftrightarrow> ls = []"
  by (induction sep ls rule: join.induct) auto

lemma hd_join: "ls \<noteq> [] \<Longrightarrow> hd ls \<noteq> [] \<Longrightarrow> hd (join sep ls) = hd (hd ls)"
  by (induction sep ls rule: join.induct) auto

lemma join_last_not_Nil: "ls \<noteq> [] \<Longrightarrow> last ls \<noteq> [] \<Longrightarrow> join sep ls \<noteq> []"
  by (induction sep ls rule: join.induct) auto

lemma last_join: "ls \<noteq> [] \<Longrightarrow> last ls \<noteq> [] \<Longrightarrow> last (join sep ls) = last (last ls)"
  by (induction sep ls rule: join.induct) (auto simp: join_last_not_Nil)

lemma trim_join:
  assumes "\<forall>l \<in> set ls. l \<noteq> [] \<and> trim l = l"
  shows "trim (join sep ls) = join sep ls"
proof (cases "ls = []")
  case True
  then show ?thesis by (simp add: trim_def)
next
  case False
  then have h: "hd ls \<in> set ls" and l: "last ls \<in> set ls" by simp_all
  from assms h have h1: "hd ls \<noteq> []" "\<not> isSpace (hd (hd ls))"
    using trim_ends(1) [of "hd ls"] by auto
  from assms l have l1: "last ls \<noteq> []" "\<not> isSpace (last (last ls))"
    using trim_ends(2) [of "last ls"] by auto
  have ne: "join sep ls \<noteq> []" using assms False join_Nil_iff [of ls sep] by simp
  show ?thesis
    using ne h1 l1 False by (simp add: trim_stable hd_join last_join)
qed

text \<open>A line that the pattern recognises is appended and the loop goes on, once the loop
  has reached the line: a separator or a signature above it ends the scan before.\<close>

lemma important_line_kept:
  "line \<noteq> [] \<Longrightarrow> hasImportantInfo line \<Longrightarrow>
   cleanLoop (line # lines) core = core @ line # cleanLoop lines []"
  using cleanLoop_acc [of lines "core @ [line]"] by simp

subsection \<open>The claims about cleanEmailContent\<close>

text \<open>
  C2. A line with a sensitive token is kept, and the scan goes on, also when the line looks
  like a signature. The source asks for a word boundary on both sides of every alternative,
  and a CJK ideograph is not a word character: the password word \<open>U+5BC6 U+7801\<close> is found
  only between ASCII word characters. Here it opens a line that is also a bare address;
  the line is taken for a signature, it is dropped and the scan stops before the last line.
\<close>

theorem native_password_line_dropped:
  "cleanEmailContent
     (js ''Hi'' @ [LF] @ [0x5BC6, 0x7801] @ js '':Pa@ss.w0rd'' @ [LF] @ js ''Bye'') = js ''Hi''"
  by code_simp

lemma ascii_token_line_kept:
  "cleanEmailContent (js ''Hi'' @ [LF] @ js ''code:Pa@ss.w0rd'' @ [LF] @ js ''Bye'')
   = js ''Hi'' @ [LF] @ js ''code:Pa@ss.w0rd'' @ [LF] @ js ''Bye''"
  by code_simp

text \<open>
  C4. The text \<open>Hi,\<close> / \<open>Your code is 123456\<close> / \<open>--\<close> / \<open>John Doe\<close> /
  \<open>john@example.com\<close> is cleaned to its first two lines: the first is an ordinary line,
  the second is protected as sensitive, the scan stops at the line of dashes, a separator.
\<close>

theorem clean_example:
  "cleanEmailContent
     (js ''Hi,'' @ [LF] @ js ''Your code is 123456'' @ [LF] @ js ''--'' @ [LF] @
      js ''John Doe'' @ [LF] @ js ''john@example.com'')
   = js ''Hi,'' @ [LF] @ js ''Your code is 123456'' \<and>
   \<not> hasImportantInfo (js ''Hi,'') \<and>
   hasImportantInfo (js ''Your code is 123456'') \<and>
   isSeparator (js ''--'')"
  by code_simp

text \<open>
  C5. Cleaning is idempotent: cleaning a cleaned text gives the cleaned text again.
\<close>

theorem clean_idem: "cleanEmailContent (cleanEmailContent rawText) = cleanEmailContent rawText"
proof (cases "rawText = []")
  case True
  then show ?thesis by (simp add: cleanEmailContent_def)
next
  case False
  define ks where "ks = cleanLoop (map trim (split LF rawText)) []"
  have res: "cleanEmailContent rawText = trim (join LF ks)"
    using False by (simp add: cleanEmailContent_def ks_def)
  have props: "\<forall>l \<in> set ks. kept l \<and> trim l = l \<and> LF \<notin> set l"
  proof
    fix l assume "l \<in> set ks"
    then have k: "kept l" and "l \<in> set (map trim (split LF rawText))"
      using cleanLoop_kept unfolding ks_def by blast+
    then obtain p where p: "p \<in> set (split LF rawText)" "l = trim p" by auto
    have "LF \<notin> set l" using p split_pieces_no_sep [of p LF rawText] set_trim [of p] by auto
    with k p show "kept l \<and> trim l = l \<and> LF \<notin> set l" by (simp add: trim_trim)
  qed
  then have tj: "trim (join LF ks) = join LF ks"
    by (intro trim_join) (auto simp: kept_def)
  show ?thesis
  proof (cases "ks = []")
    case True
    then show ?thesis using res by (simp add: trim_def cleanEmailContent_def)
  next
    case False
    note ne = this
    have nonempty: "join LF ks \<noteq> []"
      using props ne join_Nil_iff [of ks LF] by (auto simp: kept_def)
    have sp: "split LF (join LF ks) = ks" using ne props by (simp add: split_join)
    have mp: "map trim ks = ks" using props by (simp add: map_idI)
    have fx: "cleanLoop ks [] = ks" using props by (simp add: cleanLoop_fixed)
    have r: "cleanEmailContent rawText = join LF ks" using res tj by simp
    have "cleanEmailContent (join LF ks) = trim (join LF (cleanLoop (map trim (split LF (join LF ks))) []))"
      using nonempty by (simp add: cleanEmailContent_def)
    also have "\<dots> = join LF ks" by (simp only: sp mp fx tj)
    finally show ?thesis by (simp only: r)
  qed
qed

theorem clean_idem_witness:
  "cleanEmailContent (cleanEmailContent (js ''a '' @ [LF] @ js ''-'' @ [LF] @ js ''b'')) = js ''a''"
proof -
  have "cleanEmailContent (js ''a '' @ [LF] @ js ''-'' @ [LF] @ js ''b'') = js ''a''"
    by code_simp
  then show ?thesis
    using clean_idem [of "js ''a '' @ [LF] @ js ''-'' @ [LF] @ js ''b''"] by simp
qed

section \<open>Properties of the watcher\<close>

subsection \<open>The ledger in the newer source\<close>

lemma fetched_append: "fetched (es @ fs) = fetched es @ fetched fs"
  by (induction es rule: fetched.induct) auto

lemma notified_append: "notified (es @ fs) = notified es @ notified fs"
  by (induction es rule: notified.induct) auto

lemma searchCallback_reserves:
  assumes "searchCallback res s = (s', es)" and "\<forall>us. res = Inr us \<longrightarrow> distinct us"
  shows "distinct (fetched es) \<and> set (fetched es) \<inter> lastCheckedUids s = {} \<and>
         lastCheckedUids s \<union> set (fetched es) \<subseteq> lastCheckedUids s'"
  using assms by (cases res) (auto simp: searchCallback_def Let_def split: if_splits)

lemmas handler_defs =
  startCall_def connectToMailMonitor_def reject_def resolve_def onSession_def
  readyListenerCallback_def openBoxAndListen_def openBoxReturns_def openBoxCallback_def
  errorListenerCallback_def endListenerCallback_def mailListenerCallback_def
  handleDisconnect_def fetchLatestUnread_def searchThrows_def pollTimerCallback_def
  startPolling_def reconnectTimerFires_def attributesCallback_def fetchEndCallback_def
  andThen_def Let_def

lemma handle_quiet:
  assumes "\<forall>res. e \<noteq> SearchReturns res" and "e \<noteq> StopCommand"
  shows "lastCheckedUids (fst (handle e s)) = lastCheckedUids s \<and> fetched (snd (handle e s)) = []"
  using assms
  by (cases e)
     (auto simp: handler_defs split: option.splits sum.splits waiter.splits if_splits)

lemma handle_reserves:
  assumes "handle e s = (s', es)" and "inRun e"
  shows "distinct (fetched es) \<and> set (fetched es) \<inter> lastCheckedUids s = {} \<and>
         lastCheckedUids s \<union> set (fetched es) \<subseteq> lastCheckedUids s'"
proof (cases "\<exists>res. e = SearchReturns res")
  case True
  then obtain res where e: "e = SearchReturns res" by blast
  with assms show ?thesis
    using searchCallback_reserves [of res s s' es] by (cases res) auto
next
  case False
  moreover have "e \<noteq> StopCommand" using assms(2) by auto
  ultimately show ?thesis using handle_quiet [of e s] assms(1) by simp
qed

lemma run_reserves:
  assumes "\<forall>e \<in> set evs. inRun e" and "run evs s = (s', es)"
  shows "distinct (fetched es) \<and> set (fetched es) \<inter> lastCheckedUids s = {} \<and>
         lastCheckedUids s \<union> set (fetched es) \<subseteq> lastCheckedUids s'"
  using assms
proof (induction evs arbitrary: s s' es)
  case Nil
  then show ?case by auto
next
  case (Cons e evs)
  obtain s1 es1 where h: "handle e s = (s1, es1)" by (cases "handle e s")
  obtain s2 es2 where r: "run evs s1 = (s2, es2)" by (cases "run evs s1")
  from Cons.prems h r have eq: "s' = s2" "es = es1 @ es2" by (auto simp: andThen_def)
  have a: "distinct (fetched es1) \<and> set (fetched es1) \<inter> lastCheckedUids s = {} \<and>
         lastCheckedUids s \<union> set (fetched es1) \<subseteq> lastCheckedUids s1"
    using handle_reserves [OF h] Cons.prems by simp
  have b: "distinct (fetched es2) \<and> set (fetched es2) \<inter> lastCheckedUids s1 = {} \<and>
         lastCheckedUids s1 \<union> set (fetched es2) \<subseteq> lastCheckedUids s2"
    using Cons.IH [OF _ r] Cons.prems by simp
  from a b show ?case unfolding eq fetched_append by auto
qed

lemma concat_requests: "concat (requests es) = fetched es"
  by (induction es rule: requests.induct) auto

lemma distinct_map_insort:
  "distinct (map f (insort_key k x xs)) \<longleftrightarrow> f x \<notin> f ` set xs \<and> distinct (map f xs)"
  by (induction xs) (auto simp: set_insort_key)

lemma distinct_map_sort: "distinct (map f (sort_key k xs)) \<longleftrightarrow> distinct (map f xs)"
  by (induction xs) (auto simp: distinct_map_insort)

lemma notified_fetchEnd:
  "set (notified (snd (fetchEndCallback ms s))) \<subseteq> set (map uid ms) \<and>
   (distinct (map uid ms) \<longrightarrow> distinct (notified (snd (fetchEndCallback ms s)))) \<and>
   fst (fetchEndCallback ms s) = s"
  by (auto simp: fetchEndCallback_def sortBySeqnoDesc_def distinct_map_sort)

lemma notified_other:
  "(\<forall>ms. e \<noteq> FetchEnds ms) \<Longrightarrow> notified (snd (handle e s)) = []"
proof (cases e)
  case (SearchReturns res)
  then show ?thesis by (cases res) (auto simp: searchCallback_def Let_def)
qed (auto simp: handler_defs stopMailMonitor_def
       split: option.splits sum.splits waiter.splits if_splits)

lemma run_Cons: "run (e # evs) s = (fst (run evs (fst (handle e s))), snd (handle e s) @ snd (run evs (fst (handle e s))))"
  by (simp add: andThen_def split: prod.splits)

lemma run_notifies_once_aux:
  assumes "\<forall>e \<in> set evs. inRun e" and "served evs s pending"
    and "distinct (concat pending)" and "set (concat pending) \<subseteq> lastCheckedUids s"
  shows "distinct (notified (snd (run evs s))) \<and>
         set (notified (snd (run evs s))) \<inter> (lastCheckedUids s - set (concat pending)) = {}"
  using assms
proof (induction evs arbitrary: s pending)
  case Nil
  then show ?case by simp
next
  case (Cons e evs)
  show ?case
  proof (cases "\<exists>ms. e = FetchEnds ms")
    case True
    then obtain ms where e: "e = FetchEnds ms" by blast
    from Cons.prems(2) e obtain us rest where p: "pending = us # rest"
      and ms: "distinct (map uid ms)" "set (map uid ms) \<subseteq> set us"
      and sv: "served evs (fst (handle (FetchEnds ms) s)) rest"
      by (auto split: list.splits)
    have st: "fst (handle (FetchEnds ms) s) = s" using notified_fetchEnd [of ms s] by simp
    have st': "fst (fetchEndCallback ms s) = s" using notified_fetchEnd [of ms s] by simp
    let ?n1 = "notified (snd (fetchEndCallback ms s))"
    let ?n2 = "notified (snd (run evs s))"
    have n1: "set ?n1 \<subseteq> set us" "distinct ?n1"
      using notified_fetchEnd [of ms s] ms by auto
    have ih: "distinct ?n2 \<and> set ?n2 \<inter> (lastCheckedUids s - set (concat rest)) = {}"
      using Cons.IH [of s rest] Cons.prems sv st p by auto
    have us: "set us \<subseteq> lastCheckedUids s - set (concat rest)"
      using Cons.prems(3,4) p by auto
    have "notified (snd (run (e # evs) s)) = ?n1 @ ?n2"
      by (simp add: run_Cons e st' notified_append del: run.simps)
    moreover have "distinct (?n1 @ ?n2)" using n1 ih us by auto
    moreover have "set (?n1 @ ?n2) \<inter> (lastCheckedUids s - set (concat pending)) = {}"
      using n1 ih p by auto
    ultimately show ?thesis by simp
  next
    case False
    let ?s1 = "fst (handle e s)"
    let ?es = "snd (handle e s)"
    let ?p1 = "pending @ requests ?es"
    have sv: "served evs ?s1 ?p1" using Cons.prems(2) False by (cases e) auto
    have hr: "distinct (fetched ?es) \<and> set (fetched ?es) \<inter> lastCheckedUids s = {} \<and>
         lastCheckedUids s \<union> set (fetched ?es) \<subseteq> lastCheckedUids ?s1"
      using handle_reserves [of e s ?s1 ?es] Cons.prems(1) by simp
    have d: "distinct (concat ?p1)" "set (concat ?p1) \<subseteq> lastCheckedUids ?s1"
      using hr Cons.prems(3,4) by (auto simp: concat_requests)
    have ih: "distinct (notified (snd (run evs ?s1))) \<and>
         set (notified (snd (run evs ?s1))) \<inter> (lastCheckedUids ?s1 - set (concat ?p1)) = {}"
      using Cons.IH [OF _ sv d] Cons.prems(1) by simp
    have n: "notified (snd (run (e # evs) s)) = notified (snd (run evs ?s1))"
      using False by (simp add: run_Cons notified_append notified_other del: run.simps)
    have sub: "lastCheckedUids s - set (concat pending) \<subseteq> lastCheckedUids ?s1 - set (concat ?p1)"
      using hr by (auto simp: concat_requests)
    show ?thesis unfolding n using ih sub by blast
  qed
qed

lemma run_notifies_once:
  assumes "\<forall>e \<in> set evs. inRun e" and "served evs s []"
  shows "distinct (notified (snd (run evs s)))"
  using run_notifies_once_aux [OF assms] by simp

lemma served_example:
  "served [MailEvent, SearchReturns (Inr [7]), SearchReturns (Inr [7, 8]),
           FetchEnds [\<lparr>seqno = 1, uid = 7\<rparr>], FetchEnds [\<lparr>seqno = 2, uid = 8\<rparr>]]
     (fst (fst (startMailMonitor (Opened 1) initial))) [] \<and>
   notified (snd (run [MailEvent, SearchReturns (Inr [7]), SearchReturns (Inr [7, 8]),
           FetchEnds [\<lparr>seqno = 1, uid = 7\<rparr>], FetchEnds [\<lparr>seqno = 2, uid = 8\<rparr>]]
     (fst (fst (startMailMonitor (Opened 1) initial))))) = [7, 8]"
  by code_simp

lemma started:
  "fst (startMailMonitor (Opened n) initial) =
     (initial\<lparr>imapConfig := True, onNewMailCallback := True, isMonitoring := True,
              lastMailCount := n, pollTimer := True,
              imap := Some \<lparr> readyListener = False, errorListener = True, endListener = True,
                             mailListener = True, openBoxPending = False, boxSelected = True,
                             awaitedBy = None \<rparr>\<rparr>,
      [NewSession, OpenBox, Search, ListenMail, SetTimeout PollTimer 10000, StartResolves])"
  by (simp add: startMailMonitor_def handler_defs newSession_def initial_def)

lemma new_watcher_second_search_selects_nothing:
  "run [MailEvent, SearchReturns (Inr [7]), SearchReturns (Inr [7])]
       (fst (fst (startMailMonitor (Opened 1) initial)))
   = (fst (fst (startMailMonitor (Opened 1) initial))\<lparr>lastCheckedUids := {7}\<rparr>,
      [Search, Fetch [7]])"
  by (simp add: started) (simp add: handler_defs searchCallback_def initial_def)

subsection \<open>The claims about the watcher\<close>

text \<open>
  C1. In a run of the watcher a UID is fetched and handed to the notification callback at
  most once, because it enters the ledger before the fetch is issued. The newer source does
  so (\<open>run_reserves\<close>, \<open>run_notifies_once\<close>). The older source adds a UID to the ledger
  only when the attributes of its message arrive: after a start whose first search is still
  pending, a new-mail event issues a second search; both searches answer with UID 7 before
  any message of the first fetch has arrived, and UID 7 is fetched twice and notified twice.
\<close>

theorem old_watcher_fetches_twice:
  "fetched (snd (run_old
      [MailEvent, SearchReturns (Inr [7]), SearchReturns (Inr [7]),
       MessageAttributes 7, FetchEnds [\<lparr>seqno = 1, uid = 7\<rparr>],
       MessageAttributes 7, FetchEnds [\<lparr>seqno = 1, uid = 7\<rparr>]]
      (fst (fst (startMailMonitor (Opened 1) initial))))) = [7, 7] \<and>
   notified (snd (run_old
      [MailEvent, SearchReturns (Inr [7]), SearchReturns (Inr [7]),
       MessageAttributes 7, FetchEnds [\<lparr>seqno = 1, uid = 7\<rparr>],
       MessageAttributes 7, FetchEnds [\<lparr>seqno = 1, uid = 7\<rparr>]]
      (fst (fst (startMailMonitor (Opened 1) initial))))) = [7, 7]"
  by code_simp

text \<open>
  C6. After \<open>stopMailMonitor\<close> the watcher is not running, both timer references and the
  session reference are null and the ledger is empty; a poll timer or a reconnect timer that
  fires then, and the end of the closed session, change nothing and ask for nothing: no
  search, no new session, no timer.
\<close>

theorem timers_inert_after_stop:
  "pollTimerCallback (fst (stopMailMonitor s)) = (fst (stopMailMonitor s), []) \<and>
   reconnectTimerCallback a (fst (stopMailMonitor s)) = (fst (stopMailMonitor s), []) \<and>
   handle ConnectionEnd (fst (stopMailMonitor s)) = (fst (stopMailMonitor s), []) \<and>
   \<not> isMonitoring (fst (stopMailMonitor s)) \<and>
   \<not> pollTimer (fst (stopMailMonitor s)) \<and>
   \<not> reconnectTimer (fst (stopMailMonitor s)) \<and>
   imap (fst (stopMailMonitor s)) = None \<and>
   lastCheckedUids (fst (stopMailMonitor s)) = {}"
  by (simp add: stopMailMonitor_def pollTimerCallback_def reconnectTimerCallback_def
      endListenerCallback_def Let_def)

theorem timers_inert_after_stop_witness:
  "snd (stopMailMonitor (fst (fst (startMailMonitor (Opened 1) initial)))) =
     [ClearTimeout PollTimer, RemoveAllListeners, EndSession] \<and>
   snd (pollTimerCallback (fst (stopMailMonitor (fst (fst (startMailMonitor (Opened 1) initial)))))) = [] \<and>
   snd (reconnectTimerCallback (Opened 1)
          (fst (stopMailMonitor (fst (fst (startMailMonitor (Opened 1) initial)))))) = []"
proof -
  have "snd (stopMailMonitor (fst (fst (startMailMonitor (Opened 1) initial)))) =
     [ClearTimeout PollTimer, RemoveAllListeners, EndSession]"
    by (simp add: started) (simp add: initial_def stopMailMonitor_def)
  then show ?thesis
    using timers_inert_after_stop [of "fst (fst (startMailMonitor (Opened 1) initial))" "Opened 1"]
    by simp
qed

lemma poll_tick_during_reconnect_throws:
  assumes "isMonitoring s" and "imap s = None" and "imapConfig s"
  shows "run [ReconnectTimerFires, PollTimerFires] s =
           (s\<lparr>imap := Some (newSession ByReconnect)\<rparr>, [NewSession, Uncaught])"
  using assms by (simp add: handler_defs newSession_def)

lemma reconnect_completes_after_poll_tick:
  assumes "isMonitoring s" and "imap s = None" and "imapConfig s"
  shows "snd (run [ReconnectTimerFires, PollTimerFires, ReadyEvent, OpenBoxReturns (Inr n)] s) =
           [NewSession, Uncaught, OpenBox, Search, ListenMail, SetTimeout PollTimer 10000]"
  using assms by (simp add: handler_defs newSession_def)

lemma running_state:
  "fst (run [SearchReturns (Inr [7]), FetchEnds [\<lparr>seqno = 1, uid = 7\<rparr>]]
          (fst (fst (startMailMonitor (Opened 1) initial)))) =
   initial\<lparr>imapConfig := True, onNewMailCallback := True, isMonitoring := True,
           lastMailCount := 1, pollTimer := True,
           imap := Some \<lparr> readyListener = False, errorListener = True, endListener = True,
                          mailListener = True, openBoxPending = False, boxSelected = True,
                          awaitedBy = None \<rparr>,
           lastCheckedUids := {7}\<rparr>"
  by (simp add: started) (simp add: handler_defs searchCallback_def initial_def)

text \<open>
  C7. The watcher runs on a session that has its \<open>error\<close> and \<open>end\<close> listeners. When
  either event arrives, the listeners are detached, the session reference is cleared and one
  reconnect timer of 10000 ms is set. The other of the two events, on the detached session,
  sets no second timer: a late \<open>end\<close> finds no listener, and a late \<open>error\<close> finds none
  either and is thrown by the emitter. When the timer fires and the new session opens the
  folder, a search is issued. Whatever events follow the drop in this run, in any order
  (poll ticks during the attempt included), the ledger keeps the UIDs it had, and no UID of
  it is fetched or handed to the notification callback again.
\<close>

theorem drop_schedules_one_reconnect:
  assumes "isMonitoring s" and "imapConfig s"
    and "imap s = Some c" and "errorListener c" and "endListener c" and "awaitedBy c = None"
    and "\<forall>e \<in> set evs. inRun e"
    and "served evs (s\<lparr>imap := None, reconnectTimer := True\<rparr>) []"
  shows "handle ConnectionError s =
           (s\<lparr>imap := None, reconnectTimer := True\<rparr>,
            [RemoveAllListeners, SetTimeout ReconnectTimer 10000]) \<and>
         handle ConnectionEnd s =
           (s\<lparr>imap := None, reconnectTimer := True\<rparr>,
            [RemoveAllListeners, SetTimeout ReconnectTimer 10000]) \<and>
         handle ConnectionEnd (s\<lparr>imap := None, reconnectTimer := True\<rparr>) =
           (s\<lparr>imap := None, reconnectTimer := True\<rparr>, []) \<and>
         handle ConnectionError (s\<lparr>imap := None, reconnectTimer := True\<rparr>) =
           (s\<lparr>imap := None, reconnectTimer := True\<rparr>, [Uncaught]) \<and>
         snd (run [ReconnectTimerFires, ReadyEvent, OpenBoxReturns (Inr n)]
                (s\<lparr>imap := None, reconnectTimer := True\<rparr>)) =
           [NewSession, OpenBox, Search, ListenMail, SetTimeout PollTimer 10000] \<and>
         lastCheckedUids s \<subseteq> lastCheckedUids (fst (run evs (s\<lparr>imap := None, reconnectTimer := True\<rparr>))) \<and>
         distinct (fetched (snd (run evs (s\<lparr>imap := None, reconnectTimer := True\<rparr>)))) \<and>
         set (fetched (snd (run evs (s\<lparr>imap := None, reconnectTimer := True\<rparr>))))
           \<inter> lastCheckedUids s = {} \<and>
         distinct (notified (snd (run evs (s\<lparr>imap := None, reconnectTimer := True\<rparr>)))) \<and>
         set (notified (snd (run evs (s\<lparr>imap := None, reconnectTimer := True\<rparr>))))
           \<inter> lastCheckedUids s = {}"
proof -
  let ?d = "s\<lparr>imap := None, reconnectTimer := True\<rparr>"
  have 1: "handle ConnectionError s = (?d, [RemoveAllListeners, SetTimeout ReconnectTimer 10000])"
    using assms(1-6) by (simp add: handler_defs)
  have 2: "handle ConnectionEnd s = (?d, [RemoveAllListeners, SetTimeout ReconnectTimer 10000])"
    using assms(1-6) by (simp add: handler_defs)
  have 3: "handle ConnectionEnd ?d = (?d, [])" by (simp add: handler_defs)
  have 4: "handle ConnectionError ?d = (?d, [Uncaught])" by (simp add: handler_defs)
  have 5: "snd (run [ReconnectTimerFires, ReadyEvent, OpenBoxReturns (Inr n)] ?d) =
           [NewSession, OpenBox, Search, ListenMail, SetTimeout PollTimer 10000]"
    using assms(1,2) by (simp add: handler_defs newSession_def)
  obtain s' es where r: "run evs ?d = (s', es)" by (cases "run evs ?d")
  have 6: "distinct (fetched es) \<and> set (fetched es) \<inter> lastCheckedUids ?d = {} \<and>
         lastCheckedUids ?d \<union> set (fetched es) \<subseteq> lastCheckedUids s'"
    using run_reserves [OF assms(7) r] .
  have 7: "distinct (notified (snd (run evs ?d))) \<and>
         set (notified (snd (run evs ?d))) \<inter> (lastCheckedUids ?d - set (concat [])) = {}"
    by (rule run_notifies_once_aux [OF assms(7,8)]) simp_all
  show ?thesis
    using 6 7 by (simp only: 1 2 3 4 5 r fst_conv snd_conv) auto
qed

theorem drop_schedules_one_reconnect_witness:
  "handle ConnectionEnd
     (fst (run [SearchReturns (Inr [7]), FetchEnds [\<lparr>seqno = 1, uid = 7\<rparr>]]
             (fst (fst (startMailMonitor (Opened 1) initial))))) =
     ((fst (run [SearchReturns (Inr [7]), FetchEnds [\<lparr>seqno = 1, uid = 7\<rparr>]]
             (fst (fst (startMailMonitor (Opened 1) initial)))))\<lparr>imap := None, reconnectTimer := True\<rparr>,
      [RemoveAllListeners, SetTimeout ReconnectTimer 10000]) \<and>
   snd (run [PollTimerFires, ReconnectTimerFires, ReadyEvent, OpenBoxReturns (Inr 2),
             SearchReturns (Inr [7, 8]), FetchEnds [\<lparr>seqno = 2, uid = 8\<rparr>]]
          ((fst (run [SearchReturns (Inr [7]), FetchEnds [\<lparr>seqno = 1, uid = 7\<rparr>]]
             (fst (fst (startMailMonitor (Opened 1) initial)))))\<lparr>imap := None, reconnectTimer := True\<rparr>)) =
     [SetTimeout PollTimer 10000, NewSession, OpenBox, Search, ListenMail,
      SetTimeout PollTimer 10000, Fetch [8], Notify [\<lparr>seqno = 2, uid = 8\<rparr>]]"
proof -
  let ?c = "\<lparr> readyListener = False, errorListener = True, endListener = True,
              mailListener = True, openBoxPending = False, boxSelected = True,
              awaitedBy = None \<rparr>"
  let ?s = "initial\<lparr>imapConfig := True, onNewMailCallback := True, isMonitoring := True,
           lastMailCount := 1, pollTimer := True, imap := Some ?c, lastCheckedUids := {7}\<rparr>"
  let ?evs = "[PollTimerFires, ReconnectTimerFires, ReadyEvent, OpenBoxReturns (Inr 2),
             SearchReturns (Inr [7, 8]), FetchEnds [\<lparr>seqno = 2, uid = 8\<rparr>]]"
  have h: "isMonitoring ?s" "imapConfig ?s" "imap ?s = Some ?c" "errorListener ?c"
    "endListener ?c" "awaitedBy ?c = None"
    by simp_all
  have i: "\<forall>e \<in> set ?evs. inRun e" by simp
  have sv: "served ?evs (?s\<lparr>imap := None, reconnectTimer := True\<rparr>) []"
    by (simp add: handler_defs newSession_def searchCallback_def initial_def)
  have r: "snd (run ?evs (?s\<lparr>imap := None, reconnectTimer := True\<rparr>)) =
     [SetTimeout PollTimer 10000, NewSession, OpenBox, Search, ListenMail,
      SetTimeout PollTimer 10000, Fetch [8], Notify [\<lparr>seqno = 2, uid = 8\<rparr>]]"
    by (simp add: handler_defs newSession_def searchCallback_def initial_def sortBySeqnoDesc_def)
  show ?thesis
    unfolding running_state
    using drop_schedules_one_reconnect [OF h i sv, of 2] r by simp
qed

lemma filter_ledger_empty: "set results \<subseteq> L \<Longrightarrow> filter (\<lambda>u. u \<notin> L) results = []"
  by (induction results) auto

text \<open>
  C8. A detection pass whose search answers only with UIDs of the ledger, or with none,
  leaves the watcher as it is, issues no fetch and does not call the notification callback:
  the search is all it asks for (and on a session with no folder selected the search throws
  before anything is asked).
\<close>

theorem no_new_uid_no_fetch:
  assumes "set results \<subseteq> lastCheckedUids s"
  shows "searchCallback (Inr results) s = (s, []) \<and>
         detectionPass (Inr results) reply s =
           (s, case imap s of
                 None \<Rightarrow> []
               | Some c \<Rightarrow>
                   if \<not> isMonitoring s then []
                   else if boxSelected c then [Search]
                   else [Uncaught])"
proof -
  have sc: "searchCallback (Inr results) s = (s, [])"
    using assms by (simp add: searchCallback_def filter_ledger_empty)
  then show ?thesis
    by (simp add: detectionPass_def fetchLatestUnread_def split: option.splits)
qed

theorem no_new_uid_no_fetch_witness:
  "detectionPass (Inr [7]) (\<lambda>us. map (\<lambda>u. \<lparr>seqno = int u, uid = u\<rparr>) us)
     (fst (run [SearchReturns (Inr [7]), FetchEnds [\<lparr>seqno = 1, uid = 7\<rparr>]]
             (fst (fst (startMailMonitor (Opened 1) initial)))))
   = (fst (run [SearchReturns (Inr [7]), FetchEnds [\<lparr>seqno = 1, uid = 7\<rparr>]]
             (fst (fst (startMailMonitor (Opened 1) initial)))), [Search])"
proof -
  let ?s = "initial\<lparr>imapConfig := True, onNewMailCallback := True, isMonitoring := True,
           lastMailCount := 1, pollTimer := True,
           imap := Some \<lparr> readyListener = False, errorListener = True, endListener = True,
                          mailListener = True, openBoxPending = False, boxSelected = True,
                          awaitedBy = None \<rparr>,
           lastCheckedUids := {7}\<rparr>"
  have h: "set [7] \<subseteq> lastCheckedUids ?s" by simp
  show ?thesis
    unfolding running_state
    using no_new_uid_no_fetch [OF h, of "\<lambda>us. map (\<lambda>u. \<lparr>seqno = int u, uid = u\<rparr>) us"]
    by simp
qed

lemma start_error_event:
  "\<not> isMonitoring s \<Longrightarrow>
   startMailMonitor ErrorEvent s =
     ((s\<lparr>imapConfig := True, onNewMailCallback := True, isMonitoring := False,
          imap := None, reconnectTimer := True\<rparr>,
       [NewSession, RemoveAllListeners, SetTimeout ReconnectTimer 10000,
        StartRejects ConnectFailed]), RejectedWith ConnectFailed)"
  by (simp add: startMailMonitor_def handler_defs newSession_def)

lemma start_openbox_error:
  "\<not> isMonitoring s \<Longrightarrow>
   startMailMonitor OpenBoxError s =
     ((s\<lparr>imapConfig := True, onNewMailCallback := True, isMonitoring := False,
          imap := Some \<lparr> readyListener = False, errorListener = True, endListener = True,
                         mailListener = False, openBoxPending = False, boxSelected = False,
                         awaitedBy = None \<rparr>\<rparr>,
       [NewSession, OpenBox, StartRejects ProtocolError]), RejectedWith ProtocolError)"
  by (simp add: startMailMonitor_def handler_defs newSession_def)

lemma start_end_event:
  "\<not> isMonitoring s \<Longrightarrow>
   startMailMonitor EndEvent s =
     ((s\<lparr>imapConfig := True, onNewMailCallback := True, isMonitoring := True,
          imap := None, reconnectTimer := True\<rparr>,
       [NewSession, RemoveAllListeners, SetTimeout ReconnectTimer 10000]), StillPending)"
  by (simp add: startMailMonitor_def handler_defs newSession_def)

lemma start_opens_session:
  "\<not> isMonitoring s \<Longrightarrow> handle StartCommand s =
     (s\<lparr>imapConfig := True, onNewMailCallback := True, isMonitoring := True,
        imap := Some (newSession ByStart)\<rparr>, [NewSession])"
  by (simp add: handler_defs)

lemma rejected_start_not_running:
  assumes "\<not> isMonitoring s" and "a = ErrorEvent \<or> a = OpenBoxError"
  shows "(\<exists>err. snd (startMailMonitor a s) = RejectedWith err) \<and>
         \<not> isMonitoring (fst (fst (startMailMonitor a s))) \<and>
         fst (getMonitorStatus (fst (fst (startMailMonitor a s)))) = False \<and>
         snd (handle StartCommand (fst (fst (startMailMonitor a s)))) = [NewSession]"
  using assms
  by (auto simp: start_error_event start_openbox_error getMonitorStatus_def handler_defs)

lemma stale_reconnect_timer_after_failed_start:
  "snd (fst (startMailMonitor ErrorEvent initial)) =
     [NewSession, RemoveAllListeners, SetTimeout ReconnectTimer 10000, StartRejects ConnectFailed] \<and>
   snd (handle ReconnectTimerFires (fst (fst (startMailMonitor ErrorEvent initial)))) = [] \<and>
   snd (handle ReconnectTimerFires
          (fst (fst (startMailMonitor (Opened 1) (fst (fst (startMailMonitor ErrorEvent initial)))))))
     = [NewSession]"
  by (simp add: startMailMonitor_def handler_defs newSession_def initial_def)

text \<open>
  C10. When the first connection attempt of \<open>startMailMonitor\<close> fails, the error is thrown
  to the caller and \<open>isMonitoring\<close> is false again, so that the status reports a watcher
  that is not running and a later start is not a duplicate. That is so when the attempt
  fails by the \<open>error\<close> event or by \<open>openBox\<close> (\<open>rejected_start_not_running\<close>). When
  the session ends before it is ready, the \<open>end\<close> listener sets the reconnect timer and
  does not reject: the promise stays pending, nothing is thrown to the caller, the status
  reports a running watcher and a later start returns as a duplicate.
\<close>

theorem start_pending_when_session_ends_before_ready:
  "run [StartCommand, ConnectionEnd] initial =
     (initial\<lparr>imapConfig := True, onNewMailCallback := True, isMonitoring := True,
              reconnectTimer := True\<rparr>,
      [NewSession, RemoveAllListeners, SetTimeout ReconnectTimer 10000]) \<and>
   snd (startMailMonitor EndEvent initial) = StillPending \<and>
   getMonitorStatus (fst (fst (startMailMonitor EndEvent initial))) = (True, 0) \<and>
   handle StartCommand (fst (fst (startMailMonitor EndEvent initial))) =
     (fst (fst (startMailMonitor EndEvent initial)), [StartResolves])"
  by (simp add: startMailMonitor_def handler_defs newSession_def initial_def getMonitorStatus_def)

section \<open>Properties of the dispatcher\<close>

lemma broadcasts_append: "broadcasts (as @ bs) = broadcasts as @ broadcasts bs"
  by (induction as rule: broadcasts.induct) auto

lemma touched_append: "touched (as @ bs) = touched as \<union> touched bs"
  by (induction as rule: touched.induct) auto

lemma dispatchOne_broadcasts: "broadcasts (fst (dispatchOne env m)) = [uid m]"
  by (auto simp: dispatchOne_def markEmailAsRead_def broadcasts_append
      split: send_outcome.splits)

lemma dispatchOne_touched:
  "touched (fst (dispatchOne env m)) =
     (if broadcast env m = Delivered \<and> available env (uid m) then {uid m} else {})"
  by (auto simp: dispatchOne_def markEmailAsRead_def touched_append split: send_outcome.splits)

lemma dispatchOne_goes_on:
  "snd (dispatchOne env m) \<longleftrightarrow>
     broadcast env m \<noteq> RejectedNullish \<and> broadcast env m \<noteq> ThrewNullish"
  by (auto simp: dispatchOne_def markEmailAsRead_def split: send_outcome.splits)

lemma handleNewMail_Cons:
  "handleNewMail env (m # ms) =
     fst (dispatchOne env m) @ (if snd (dispatchOne env m) then handleNewMail env ms else [])"
  by (cases "dispatchOne env m") (auto split: bool.splits)

lemma every_message_is_sent:
  "\<forall>m \<in> set ms. broadcast env m \<noteq> RejectedNullish \<and> broadcast env m \<noteq> ThrewNullish \<Longrightarrow>
   broadcasts (handleNewMail env ms) = map uid ms"
  by (induction ms)
     (simp_all add: handleNewMail_Cons broadcasts_append dispatchOne_broadcasts dispatchOne_goes_on
        del: handleNewMail.simps(2))

lemma failed_send_untouched:
  "u \<in> touched (handleNewMail env ms) \<Longrightarrow>
   \<exists>m \<in> set ms. uid m = u \<and> broadcast env m = Delivered"
  by (induction ms)
     (auto simp: handleNewMail_Cons touched_append dispatchOne_touched
        simp del: handleNewMail.simps(2) split: if_splits)

lemma new_dispatch_after_failed_send:
  "handleNewMail
     \<lparr> broadcast = (\<lambda>m. Rejected), available = (\<lambda>u. True),
       addFlagsFails = (\<lambda>u. False), expungeFails = (\<lambda>u. False) \<rparr>
     [\<lparr>seqno = 1, uid = 7\<rparr>]
   = [Broadcast 7, LogSendFailed 7]"
  by (simp add: dispatchOne_def)

lemma new_dispatch_after_failed_post_processing:
  "handleNewMail
     \<lparr> broadcast = (\<lambda>m. Delivered), available = (\<lambda>u. True),
       addFlagsFails = (\<lambda>u. u = 8), expungeFails = (\<lambda>u. False) \<rparr>
     [\<lparr>seqno = 2, uid = 8\<rparr>, \<lparr>seqno = 1, uid = 7\<rparr>]
   = [Broadcast 8, AddFlags 8 Seen, LogPostFailed 8, Broadcast 7, AddFlags 7 Seen]"
  by (simp add: dispatchOne_def markEmailAsRead_def)

lemma new_dispatch_nullish_rejection_ends_batch:
  "handleNewMail
     \<lparr> broadcast = (\<lambda>m. RejectedNullish), available = (\<lambda>u. True),
       addFlagsFails = (\<lambda>u. False), expungeFails = (\<lambda>u. False) \<rparr>
     [\<lparr>seqno = 2, uid = 8\<rparr>, \<lparr>seqno = 1, uid = 7\<rparr>]
   = [Broadcast 8, CatchThrows 8]"
  by (simp add: dispatchOne_def)

text \<open>
  C3. A message whose notification could not be sent is left as it is on the server, and a
  failing post-processing does not stop the batch. The newer source does both
  (\<open>failed_send_untouched\<close>, \<open>new_dispatch_after_failed_post_processing\<close>). The older
  source does not await the broadcast: when its promise rejects, the \<open>catch\<close> is not reached
  and the message is flagged as deleted and expunged.
\<close>

theorem old_dispatch_deletes_after_failed_send:
  "handleNewMail_old
     \<lparr> broadcast = (\<lambda>m. Rejected), available = (\<lambda>u. True),
       addFlagsFails = (\<lambda>u. False), expungeFails = (\<lambda>u. False) \<rparr>
     [\<lparr>seqno = 1, uid = 7\<rparr>]
   = [Broadcast 7, AddFlags 7 Deleted, Expunge]"
  by (simp add: dispatchOne_old_def deleteEmailByUid_def)

section \<open>Properties of the listing\<close>

lemma numbered_upt: "numbered (int a) [a..<b] = map entry [int a..int b - 1]"
proof (induction "b - a" arbitrary: a)
  case 0
  then show ?case by simp
next
  case (Suc k)
  then have ab: "a < b" by simp
  have "k = b - Suc a" using Suc.hyps(2) by simp
  then have "numbered (int (Suc a)) [Suc a..<b] = map entry [int (Suc a)..int b - 1]"
    by (rule Suc.hyps(1))
  then have "numbered (int a + 1) [Suc a..<b] = map entry [int a + 1..int b - 1]"
    by (simp add: add.commute)
  moreover have "[int a..int b - 1] = int a # [int a + 1..int b - 1]"
    using ab by (simp add: upto_rec1)
  ultimately show ?case using ab by (simp add: upt_conv_Cons entry_def)
qed

lemma insort_last:
  "\<forall>y \<in> set ys. k y < k x \<Longrightarrow> insort_key k x ys = ys @ [x]"
  for k :: "'a \<Rightarrow> int"
  by (induction ys) auto

lemma sort_desc_upto: "sortBySeqnoDesc (map entry [a..b]) = rev (map entry [a..b])"
proof (induction "nat (b - a + 1)" arbitrary: a)
  case 0
  then show ?case by (simp add: sortBySeqnoDesc_def)
next
  case (Suc n)
  then have ab: "a \<le> b" by simp
  then have u: "[a..b] = a # [a + 1..b]" by (simp add: upto_rec1)
  have ih: "sortBySeqnoDesc (map entry [a + 1..b]) = rev (map entry [a + 1..b])"
    using Suc by simp
  have "insort_key (\<lambda>m. - seqno m) (entry a) (rev (map entry [a + 1..b]))
        = rev (map entry [a + 1..b]) @ [entry a]"
    by (rule insort_last) (auto simp: entry_def)
  then show ?case using ih by (simp add: u sortBySeqnoDesc_def)
qed

lemma filter_range_upto:
  "1 \<le> lo \<Longrightarrow> lo \<le> hi \<Longrightarrow>
   filter (\<lambda>m. inSource (UidRange lo hi) (uid m)) (map entry [1..hi]) = map entry [lo..hi]"
proof -
  assume a: "1 \<le> lo" "lo \<le> hi"
  have "[1..hi] = [1..lo - 1] @ [lo..hi]"
    using a upto_split1 [of 1 lo hi] by simp
  moreover have "filter (\<lambda>m. inSource (UidRange lo hi) (uid m)) (map entry [1..lo - 1]) = []"
    using a by (auto simp: filter_empty_conv entry_def)
  moreover have "filter (\<lambda>m. inSource (UidRange lo hi) (uid m)) (map entry [lo..hi]) = map entry [lo..hi]"
    using a by (auto simp: filter_id_conv entry_def)
  ultimately show ?thesis by simp
qed

lemma fallback_when_uids_are_seqnos:
  assumes "1 \<le> limit" and "inbox srv = [1..<Suc n]"
    and "\<not> openBoxFails srv" and "\<not> fetchFails srv" and "searchAnswer srv CritALL = Inl e"
  shows "listAll srv limit = Inr (rev (map entry [max 1 (int n - limit + 1)..int n]))"
proof (cases "n = 0")
  case True
  with assms show ?thesis by (simp add: listAll_def searchMails_def getMailList_def)
next
  case False
  let ?lo = "max 1 (int n - limit + 1)"
  have lo: "1 \<le> ?lo" "?lo \<le> int n" using assms(1) False by auto
  have nb: "numbered 1 (inbox srv) = map entry [1..int n]"
    using numbered_upt [of 1 "Suc n"] assms(2) by simp
  have "imap_fetch srv (UidRange ?lo (int n)) = map entry [?lo..int n]"
    unfolding imap_fetch_def nb using lo by (rule filter_range_upto)
  then have "getMailList srv limit = Inr (rev (map entry [?lo..int n]))"
    using assms False by (simp add: getMailList_def Let_def sort_desc_upto)
  moreover have "searchMails srv CritALL limit = Inl e"
    using assms False by (simp add: searchMails_def)
  ultimately show ?thesis by (simp add: listAll_def)
qed

text \<open>
  C9. When the search for all messages is rejected, the listing falls back to the range
  from \<open>max 1 (total - limit + 1)\<close> to \<open>total\<close>, which the source computes from the
  message count, and returns what it fetches newest first. The range is handed to the fetch
  that addresses messages by UID: it is the newest messages only where UIDs and sequence
  numbers agree (\<open>fallback_when_uids_are_seqnos\<close>). In a folder of three messages with
  the UIDs 101, 102 and 103 and a limit of 10 the range is \<open>1:3\<close>, no message has such a
  UID, and the listing is empty.
\<close>

theorem fallback_range_is_read_as_uids:
  "listAll \<lparr> openBoxFails = False, inbox = [101, 102, 103],
             searchAnswer = (\<lambda>c. Inl ProtocolError), fetchFails = False \<rparr> 10 = Inr []"
  by (simp add: listAll_def searchMails_def getMailList_def imap_fetch_def sortBySeqnoDesc_def)

end
